theory Spec2Isabelle
  imports Main "HOL-Library.Signed_Division"
begin

section \<open>The dashboard of src/app/vis.go\<close>

text \<open>
  The program is a Bubble Tea application: a value of type \<open>model\<close>, an \<open>Init\<close>, an
  \<open>Update\<close> that maps a message and a model to the next model and a command, and a
  \<open>View\<close>. The widgets it is built from (\<open>list.Model\<close>, \<open>viewport.Model\<close>, lipgloss
  styles) and the event loop belong to libraries outside the repository. Their state is
  modelled by the fields that vis.go reads and writes; their behaviour (what a list or a
  viewport does with a message, how a viewport or a style renders) is a parameter of
  every function below, the record \<open>bubbles\<close>, so that what is proved holds whatever
  the libraries do, unless a theorem names an assumption on them.
\<close>

subsection \<open>Messages, commands, panics\<close>

text \<open>\<open>tea.Msg\<close>: a resize, a key (by its \<open>String()\<close>), or any other message.\<close>

datatype msg = WindowSizeMsg int int | KeyMsg string | OtherMsg nat

text \<open>\<open>tea.Cmd\<close>: nil, \<open>tea.Quit\<close>, or a command made by a library widget.\<close>

datatype cmd = NoCmd | Quit | LibCmd nat

text \<open>A Go run-time panic: index \<open>i\<close> out of range for length \<open>n\<close>.\<close>

datatype error = IndexOutOfRange nat nat

subsection \<open>Items, delegates, lists, viewports\<close>

record menuItem =
  title_mi :: string
  desc :: string
  selected :: bool

text \<open>\<open>customDelegate\<close>; its \<open>styles\<close> field is never set nor read.\<close>

record customDelegate =
  focused_cd :: bool

text \<open>
  \<open>list.Model\<close>: the title, \<open>Items()\<close>, \<open>Index()\<close>, the delegate, the size and the
  four display switches that \<open>createList\<close> turns off. Every item the program creates is
  a \<open>menuItem\<close>.
\<close>

record list_model =
  Title :: string
  items_l :: "menuItem list"
  index_l :: nat
  delegate :: customDelegate
  width_l :: int
  height_l :: int
  showStatusBar :: bool
  filteringEnabled :: bool
  showHelp :: bool
  showPagination :: bool

text \<open>\<open>viewport.Model\<close>: the text given to \<open>SetContent\<close>, the size, the scroll offset.\<close>

record viewport =
  content :: string
  Width :: int
  Height :: int
  YOffset :: int

text \<open>
  The constructors and setters of the widgets that the program calls, as assignments to
  these fields (\<open>list.New\<close> starts with the cursor on the first item, the title
  \<open>List\<close> and the display switches on). What else the library recomputes on such a
  call, the pagination of a list or the scroll offset of a viewport, is not modelled.
\<close>

definition list_New :: "menuItem list \<Rightarrow> customDelegate \<Rightarrow> int \<Rightarrow> int \<Rightarrow> list_model" where
  "list_New its d w h =
     \<lparr>Title = ''List'', items_l = its, index_l = 0, delegate = d, width_l = w, height_l = h,
      showStatusBar = True, filteringEnabled = True, showHelp = True, showPagination = True\<rparr>"

definition SetItems :: "menuItem list \<Rightarrow> list_model \<Rightarrow> list_model" where
  "SetItems its l = l\<lparr>items_l := its\<rparr>"

definition SetDelegate :: "customDelegate \<Rightarrow> list_model \<Rightarrow> list_model" where
  "SetDelegate d l = l\<lparr>delegate := d\<rparr>"

definition SetHeight :: "int \<Rightarrow> list_model \<Rightarrow> list_model" where
  "SetHeight h l = l\<lparr>height_l := h\<rparr>"

definition SetWidth :: "int \<Rightarrow> list_model \<Rightarrow> list_model" where
  "SetWidth w l = l\<lparr>width_l := w\<rparr>"

definition viewport_New :: "int \<Rightarrow> int \<Rightarrow> viewport" where
  "viewport_New w h = \<lparr>content = [], Width = w, Height = h, YOffset = 0\<rparr>"

definition SetContent :: "string \<Rightarrow> viewport \<Rightarrow> viewport" where
  "SetContent s v = v\<lparr>content := s\<rparr>"

text \<open>
  The behaviour of the libraries: \<open>list.Model.Update\<close>, \<open>list.Model.View\<close>,
  \<open>viewport.Model.Update\<close>, \<open>viewport.Model.View\<close>, a lipgloss style rendering
  a text at a width and height (the flag chooses \<open>focusedBorderStyle\<close>), and the two joins.
\<close>

record bubbles =
  list_Update :: "msg \<Rightarrow> list_model \<Rightarrow> list_model \<times> cmd"
  list_View :: "list_model \<Rightarrow> string"
  vp_Update :: "msg \<Rightarrow> viewport \<Rightarrow> viewport \<times> cmd"
  vp_View :: "viewport \<Rightarrow> string"
  style_Render :: "bool \<Rightarrow> int \<Rightarrow> int \<Rightarrow> string \<Rightarrow> string"
  JoinHorizontal :: "string list \<Rightarrow> string"
  JoinVertical :: "string \<Rightarrow> string \<Rightarrow> string"

subsection \<open>The network\<close>

text \<open>
  A connection handle is the address it was dialled to. What the program does to the
  outside is logged in \<open>world\<close>: the bytes of every \<open>Write\<close> (\<open>sent\<close>), the addresses
  dialled, the lines printed on standard error. \<open>wscript\<close> is the environment's answer
  to the coming writes, in order (none left: the write succeeds): a failed write has
  delivered some prefix of the data and returns an error text.
\<close>

datatype conn = Conn string

datatype wres = WriteOk | WriteErr nat string

record world =
  sent :: "(conn \<times> string) list"
  wscript :: "wres list"
  dialed :: "string list"
  stderr :: "string list"

definition conn_Write :: "conn \<Rightarrow> string \<Rightarrow> world \<Rightarrow> world \<times> string option" where
  "conn_Write c d w =
     (case wscript w of
        [] \<Rightarrow> (w\<lparr>sent := sent w @ [(c, d)]\<rparr>, None)
      | WriteOk # r \<Rightarrow> (w\<lparr>sent := sent w @ [(c, d)], wscript := r\<rparr>, None)
      | WriteErr n e # r \<Rightarrow> (w\<lparr>sent := sent w @ [(c, take n d)], wscript := r\<rparr>, Some e))"

definition port9001 :: string where
  "port9001 = ''localhost:9001''"

definition port9002 :: string where
  "port9002 = ''localhost:9002''"

subsection \<open>The model\<close>

record pane =
  title :: string
  items :: list_model
  isMenu :: bool
  focused :: bool

text \<open>
  \<open>focusIndex\<close> is a Go \<open>int\<close> that starts at 0 and is only ever assigned a remainder
  modulo a positive length: a natural number. \<open>mu\<close> is the mutex: True when held.
\<close>

record model =
  focusIndex :: nat
  topPanes :: "pane list"
  outputPane :: viewport
  outputPaneFocused :: bool
  mu :: bool
  conn9001 :: "conn option"
  conn9002 :: "conn option"
  width :: int
  height :: int

definition createList :: "string \<Rightarrow> string list \<Rightarrow> int \<Rightarrow> bool \<Rightarrow> list_model" where
  "createList ttl its hgt foc =
     (let itemList = map (\<lambda>s. \<lparr>title_mi = s, desc = [], selected = False\<rparr>) its;
          listHeight = (if int (length its) > hgt then hgt else int (length its));
          l = list_New itemList \<lparr>focused_cd = foc\<rparr> 20 listHeight
      in l\<lparr>Title := ttl, showStatusBar := False, filteringEnabled := False,
            showHelp := False, showPagination := False\<rparr>)"

definition initialModel :: model where
  "initialModel =
     (let pane1ItemList = [''Option A'', ''Option B'', ''Option C''];
          pane2ItemList = [''Option X'', ''Option Y'', ''Option Z''];
          commands = [''Cmd 1'', ''Cmd 2'', ''Cmd 3'', ''Exit''];
          pane4Itemlist = [''Opt 1'', ''Opt 2'', ''Opt 3''];
          panes =
            [\<lparr>title = ''Pane 1'', items = createList ''Pane 1'' pane1ItemList 10 True,
              isMenu = True, focused = True\<rparr>,
             \<lparr>title = ''Pane 2'', items = createList ''Pane 2'' pane2ItemList 10 False,
              isMenu = True, focused = False\<rparr>,
             \<lparr>title = ''Commands'', items = createList ''Commands'' commands 10 False,
              isMenu = False, focused = False\<rparr>,
             \<lparr>title = ''Pane 4'', items = createList ''Pane 4'' pane4Itemlist 10 False,
              isMenu = True, focused = False\<rparr>];
          output = SetContent ''Welcome to the TUI!'' (viewport_New 100 20)
      in \<lparr>focusIndex = 0, topPanes = panes, outputPane = output, outputPaneFocused = False,
          mu = False, conn9001 = None, conn9002 = None, width = 0, height = 0\<rparr>)"

definition updatePaneDelegates :: "model \<Rightarrow> model" where
  "updatePaneDelegates m =
     m\<lparr>topPanes :=
         map (\<lambda>i. (topPanes m ! i)\<lparr>items :=
                     SetDelegate \<lparr>focused_cd = (i = focusIndex m)\<rparr> (items (topPanes m ! i))\<rparr>)
           [0..<length (topPanes m)]\<rparr>"

subsection \<open>Update\<close>

text \<open>
  The end of \<open>Update\<close> (lines 279-288): the message goes to the focused component, whose
  command is returned.
\<close>

definition forward :: "bubbles \<Rightarrow> msg \<Rightarrow> model \<Rightarrow> world \<Rightarrow> error + (model \<times> cmd \<times> world)" where
  "forward lib ev m w =
     (if focusIndex m < length (topPanes m) then
        (let p = topPanes m ! focusIndex m;
             (l, c) = list_Update lib ev (items p)
         in Inr (m\<lparr>topPanes := (topPanes m)[focusIndex m := p\<lparr>items := l\<rparr>]\<rparr>, c, w))
      else
        (let (v, c) = vp_Update lib ev (outputPane m)
         in Inr (m\<lparr>outputPane := v\<rparr>, c, w)))"

text \<open>\<open>case tea.WindowSizeMsg\<close> (lines 197-214), up to the end of the switch.\<close>

definition resize :: "int \<Rightarrow> int \<Rightarrow> model \<Rightarrow> model" where
  "resize wd ht m =
     (let paneHeight = (ht sdiv 2) - 2
      in m\<lparr>width := wd, height := ht,
           topPanes :=
             map (\<lambda>p. let numItems = int (length (items_l (items p)));
                          displayHeight = (if numItems < paneHeight then numItems else paneHeight)
                      in p\<lparr>items := SetHeight displayHeight (items p)\<rparr>)
               (topPanes m),
           outputPane := (outputPane m)\<lparr>Width := wd - 2, Height := ht sdiv 2\<rparr>\<rparr>)"

text \<open>\<open>case "tab"\<close> (lines 217-234), up to the end of the switch.\<close>

definition advance :: "model \<Rightarrow> model" where
  "advance m =
     (let previousFocusIndex = focusIndex m;
          n = length (topPanes m);
          m1 = m\<lparr>focusIndex := (focusIndex m + 1) mod (n + 1)\<rparr>;
          m2 = (if previousFocusIndex < n
                then m1\<lparr>topPanes := (topPanes m1)[previousFocusIndex :=
                                       (topPanes m1 ! previousFocusIndex)\<lparr>focused := False\<rparr>]\<rparr>
                else m1\<lparr>outputPaneFocused := False\<rparr>);
          m3 = (if focusIndex m2 < n
                then m2\<lparr>topPanes := (topPanes m2)[focusIndex m2 :=
                                       (topPanes m2 ! focusIndex m2)\<lparr>focused := True\<rparr>]\<rparr>
                else m2\<lparr>outputPaneFocused := True\<rparr>)
      in updatePaneDelegates m3)"

text \<open>
  \<open>case " "\<close> (lines 235-246): the toggle of the item under the cursor (lines 236-243),
  guarded by \<open>focusIndex < len(topPanes)\<close>, and the forwarding on line 245, which
  indexes \<open>topPanes\<close> without that guard.
\<close>

definition toggleSelection :: "model \<Rightarrow> error + model" where
  "toggleSelection m =
     (if focusIndex m < length (topPanes m) \<and> isMenu (topPanes m ! focusIndex m) then
        (let p = topPanes m ! focusIndex m;
             index = index_l (items p);
             its = items_l (items p)
         in if index < length its then
              (let item = (its ! index)\<lparr>selected := \<not> selected (its ! index)\<rparr>;
                   its' = its[index := item]
               in Inr (m\<lparr>topPanes := (topPanes m)[focusIndex m :=
                                         p\<lparr>items := SetItems its' (items p)\<rparr>]\<rparr>))
            else Inl (IndexOutOfRange index (length its)))
      else Inr m)"

definition toggle :: "bubbles \<Rightarrow> msg \<Rightarrow> model \<Rightarrow> world \<Rightarrow> error + (model \<times> cmd \<times> world)" where
  "toggle lib ev m w =
     (case toggleSelection m of
        Inl e \<Rightarrow> Inl e
      | Inr m1 \<Rightarrow>
          if focusIndex m1 < length (topPanes m1) then
            (let p = topPanes m1 ! focusIndex m1;
                 (l, c) = list_Update lib ev (items p)
             in Inr (m1\<lparr>topPanes := (topPanes m1)[focusIndex m1 := p\<lparr>items := l\<rparr>]\<rparr>, c, w))
          else Inl (IndexOutOfRange (focusIndex m1) (length (topPanes m1))))"

text \<open>\<open>case "up", "down"\<close> (lines 247-257).\<close>

definition navigate :: "bubbles \<Rightarrow> msg \<Rightarrow> model \<Rightarrow> world \<Rightarrow> error + (model \<times> cmd \<times> world)" where
  "navigate lib ev m w =
     (if focusIndex m < length (topPanes m) then
        (let p = topPanes m ! focusIndex m;
             (l, c) = list_Update lib ev (items p)
         in Inr (m\<lparr>topPanes := (topPanes m)[focusIndex m := p\<lparr>items := l\<rparr>]\<rparr>, c, w))
      else if outputPaneFocused m then
        (let (v, c) = vp_Update lib ev (outputPane m)
         in Inr (m\<lparr>outputPane := v\<rparr>, c, w))
      else forward lib ev m w)"

text \<open>
  \<open>case "enter"\<close> (lines 258-273): on a pane that is not a menu, the label under the
  cursor is the command. \<open>Exit\<close> returns \<open>tea.Quit\<close> at once; any other command is written
  with a newline to \<open>conn9001\<close> when that is not nil, and a failed write puts an error
  line after the viewport's text. Then the key is forwarded.
\<close>

definition confirm :: "bubbles \<Rightarrow> msg \<Rightarrow> model \<Rightarrow> world \<Rightarrow> error + (model \<times> cmd \<times> world)" where
  "confirm lib ev m w =
     (if focusIndex m < length (topPanes m) \<and> \<not> isMenu (topPanes m ! focusIndex m) then
        (let p = topPanes m ! focusIndex m;
             index = index_l (items p);
             its = items_l (items p)
         in if index < length its then
              (let command = title_mi (its ! index)
               in if command = ''Exit'' then Inr (m, Quit, w)
                  else
                    (case conn9001 m of
                       None \<Rightarrow> forward lib ev m w
                     | Some c \<Rightarrow>
                         (case conn_Write c (command @ [CHR 0x0A]) w of
                            (w', None) \<Rightarrow> forward lib ev m w'
                          | (w', Some err) \<Rightarrow>
                              forward lib ev
                                (m\<lparr>outputPane :=
                                     SetContent (vp_View lib (outputPane m) @ [CHR 0x0A]
                                                 @ ''Error sending command: '' @ err)
                                       (outputPane m)\<rparr>) w')))
            else Inl (IndexOutOfRange index (length its)))
      else forward lib ev m w)"

definition Update :: "bubbles \<Rightarrow> msg \<Rightarrow> model \<Rightarrow> world \<Rightarrow> error + (model \<times> cmd \<times> world)" where
  "Update lib ev m w =
     (case ev of
        WindowSizeMsg wd ht \<Rightarrow> forward lib ev (resize wd ht m) w
      | KeyMsg k \<Rightarrow>
          if k = ''tab'' then forward lib ev (advance m) w
          else if k = '' '' then toggle lib ev m w
          else if k = ''up'' \<or> k = ''down'' then navigate lib ev m w
          else if k = ''enter'' then confirm lib ev m w
          else if k = ''q'' then Inr (m, Quit, w)
          else forward lib ev m w
      | OtherMsg _ \<Rightarrow> forward lib ev m w)"

text \<open>
  The event loop: messages are handled one at a time, each to completion; a panic ends
  the run, and so does \<open>tea.Quit\<close> (the flag of the result).
\<close>

fun run :: "bubbles \<Rightarrow> msg list \<Rightarrow> model \<Rightarrow> world \<Rightarrow> error + (model \<times> world \<times> bool)" where
  "run lib [] m w = Inr (m, w, False)"
| "run lib (ev # evs) m w =
     (case Update lib ev m w of
        Inl e \<Rightarrow> Inl e
      | Inr (m', c, w') \<Rightarrow> if c = Quit then Inr (m', w', True) else run lib evs m' w')"

subsection \<open>Rendering\<close>

text \<open>
  \<open>customDelegate.Render\<close> (lines 67-94). It ignores the index and the item it is called
  for and prints a row for every item of the list: the cursor column, the selector
  (empty when the list's title is \<open>Commands\<close>) and the label, as
  \<open>Sprintf("%s %s %s")\<close> joins them; \<open>Fprintln\<close> ends each row with a newline.
\<close>

definition Render_rows :: "customDelegate \<Rightarrow> list_model \<Rightarrow> string list" where
  "Render_rows d m =
     map (\<lambda>i. let menuItem = items_l m ! i;
                  selector0 = (if selected menuItem then ''[x]'' else ''[ ]'');
                  selector = (if Title m = ''Commands'' then [] else selector0);
                  cursor = (if i = index_l m \<and> focused_cd d then ''>'' else '' '')
              in cursor @ '' '' @ selector @ '' '' @ title_mi menuItem)
       [0..<length (items_l m)]"

definition Render :: "customDelegate \<Rightarrow> list_model \<Rightarrow> nat \<Rightarrow> menuItem \<Rightarrow> string" where
  "Render d m index item = concat (map (\<lambda>r. r @ [CHR 0x0A]) (Render_rows d m))"

text \<open>\<open>model.View\<close> (lines 292-320).\<close>

definition View :: "bubbles \<Rightarrow> model \<Rightarrow> string" where
  "View lib m =
     (let paneHeight = (height m sdiv 2) - 2;
          tops = map (\<lambda>p. style_Render lib (focused p) (width m sdiv 4 - 2) paneHeight
                             (list_View lib (items p))) (topPanes m);
          topRow = JoinHorizontal lib tops;
          output = style_Render lib (outputPaneFocused m) (width m - 2) (height m sdiv 2)
                     (vp_View lib (outputPane m))
      in JoinVertical lib topRow output)"

subsection \<open>Init and the goroutines\<close>

text \<open>
  \<open>Init\<close> has a value receiver: it works on its own copy of the model. \<open>Init_copy\<close> is
  that copy at line 157, where \<open>connectToServer\<close> is started on its address. Of what
  \<open>Init\<close> assigns, the caller's model sees only the widths set in the panes, whose slice
  the copy shares (\<open>Init_caller\<close>).
\<close>

definition Init_copy :: "model \<Rightarrow> model" where
  "Init_copy m =
     (let m1 = m\<lparr>width := 80, height := 24\<rparr>;
          m2 = m1\<lparr>topPanes :=
                    map (\<lambda>p. p\<lparr>items := SetWidth (width m1 sdiv 4 - 2) (items p)\<rparr>)
                      (topPanes m1)\<rparr>
      in m2\<lparr>outputPane := (outputPane m2)\<lparr>Width := width m2 - 2, Height := height m2 sdiv 2\<rparr>\<rparr>)"

definition Init_caller :: "model \<Rightarrow> model" where
  "Init_caller m = m\<lparr>topPanes := topPanes (Init_copy m)\<rparr>"

text \<open>
  \<open>connectToServer\<close> (lines 161-173). \<open>dial\<close> is \<open>net.Dial\<close>: an error text or a
  connection. The flag of the result says whether \<open>listenToServer\<close> was started.
\<close>

definition connectToServer ::
    "(string \<Rightarrow> string + conn) \<Rightarrow> model \<Rightarrow> world \<Rightarrow> model \<times> world \<times> bool" where
  "connectToServer dial m w =
     (let w1 = w\<lparr>dialed := dialed w @ [port9001]\<rparr>;
          (m1, w2) =
            (case dial port9001 of
               Inl err \<Rightarrow>
                 (m\<lparr>conn9001 := None\<rparr>,
                  w1\<lparr>stderr := stderr w1 @
                       [''Error connecting to port 9001: '' @ err @ [CHR 0x0A]]\<rparr>)
             | Inr c \<Rightarrow> (m\<lparr>conn9001 := Some c\<rparr>, w1));
          w3 = w2\<lparr>dialed := dialed w2 @ [port9002]\<rparr>
      in case dial port9002 of
           Inl err \<Rightarrow>
             (m1\<lparr>conn9002 := None\<rparr>,
              w3\<lparr>stderr := stderr w3 @
                   [''Error connecting to port 9002: '' @ err @ [CHR 0x0A]]\<rparr>,
              False)
         | Inr c \<Rightarrow> (m1\<lparr>conn9002 := Some c\<rparr>, w3, True))"

text \<open>
  One turn of the loop of \<open>listenToServer\<close> (lines 176-185) that has read a message:
  under the mutex, the message is put after the viewport's text. \<open>addToOutputPane\<close>
  (lines 188-192) does the same with a text; nothing calls it.
\<close>

definition listen_message :: "bubbles \<Rightarrow> string \<Rightarrow> model \<Rightarrow> model" where
  "listen_message lib message m =
     (let m1 = m\<lparr>mu := True\<rparr>;
          m2 = m1\<lparr>outputPane := SetContent (vp_View lib (outputPane m1) @ message) (outputPane m1)\<rparr>
      in m2\<lparr>mu := False\<rparr>)"


text \<open>
  The running program (\<open>main\<close>, lines 322-328): Bubble Tea holds the model made by
  \<open>initialModel\<close> (\<open>loop\<close>) and feeds it to \<open>Update\<close>; the goroutines started by \<open>Init\<close>
  work on the copy (\<open>bgm\<close>). An event is a message for \<open>Update\<close>, the run of
  \<open>connectToServer\<close> (once), a line read by \<open>listenToServer\<close> (given without its
  newline), or a read error, which ends the listener. A goroutine event that is not
  enabled leaves the state as it is.
\<close>

record sys =
  loop :: model
  bgm :: model
  connecting :: bool
  listening :: bool
  wld :: world

datatype event = UI msg | Connect | Recv string | RecvErr string

definition start :: "world \<Rightarrow> sys" where
  "start w = \<lparr>loop = Init_caller initialModel, bgm = Init_copy initialModel,
              connecting = True, listening = False, wld = w\<rparr>"

definition sys_step ::
    "bubbles \<Rightarrow> (string \<Rightarrow> string + conn) \<Rightarrow> event \<Rightarrow> sys \<Rightarrow> error + (sys \<times> bool)" where
  "sys_step lib dial e s =
     (case e of
        UI ev \<Rightarrow>
          (case Update lib ev (loop s) (wld s) of
             Inl err \<Rightarrow> Inl err
           | Inr (m', c, w') \<Rightarrow> Inr (s\<lparr>loop := m', wld := w'\<rparr>, c = Quit))
      | Connect \<Rightarrow>
          if connecting s then
            (let (m', w', started) = connectToServer dial (bgm s) (wld s)
             in Inr (s\<lparr>bgm := m', wld := w', connecting := False, listening := started\<rparr>, False))
          else Inr (s, False)
      | Recv line \<Rightarrow>
          if listening s
          then Inr (s\<lparr>bgm := listen_message lib (line @ [CHR 0x0A]) (bgm s)\<rparr>, False)
          else Inr (s, False)
      | RecvErr err \<Rightarrow>
          if listening s
          then Inr (s\<lparr>listening := False,
                       wld := (wld s)\<lparr>stderr := stderr (wld s) @
                                [''Error reading from port 9002: '' @ err @ [CHR 0x0A]]\<rparr>\<rparr>, False)
          else Inr (s, False))"

fun run_sys ::
    "bubbles \<Rightarrow> (string \<Rightarrow> string + conn) \<Rightarrow> event list \<Rightarrow> sys \<Rightarrow> error + (sys \<times> bool)" where
  "run_sys lib dial [] s = Inr (s, False)"
| "run_sys lib dial (e # es) s =
     (case sys_step lib dial e s of
        Inl err \<Rightarrow> Inl err
      | Inr (s', q) \<Rightarrow> if q then Inr (s', True) else run_sys lib dial es s')"

text \<open>The messages for \<open>Update\<close> among the events.\<close>

fun ui_msgs :: "event list \<Rightarrow> msg list" where
  "ui_msgs [] = []"
| "ui_msgs (UI ev # es) = ev # ui_msgs es"
| "ui_msgs (_ # es) = ui_msgs es"

subsection \<open>A plain instance of the libraries\<close>

text \<open>
  For evaluating the functions at concrete inputs: a list that moves its cursor on
  \<open>up\<close> and \<open>down\<close> within its items and ignores every other message, a viewport that
  shows its whole text and ignores every message, styles and joins that only
  concatenate.
\<close>

definition plain_list_Update :: "msg \<Rightarrow> list_model \<Rightarrow> list_model \<times> cmd" where
  "plain_list_Update ev l =
     (if ev = KeyMsg ''up'' then (l\<lparr>index_l := index_l l - 1\<rparr>, NoCmd)
      else if ev = KeyMsg ''down'' \<and> index_l l + 1 < length (items_l l)
      then (l\<lparr>index_l := index_l l + 1\<rparr>, NoCmd)
      else (l, NoCmd))"

definition plain :: bubbles where
  "plain =
     \<lparr>list_Update = plain_list_Update,
      list_View = (\<lambda>l. Render (delegate l) l 0 \<lparr>title_mi = [], desc = [], selected = False\<rparr>),
      vp_Update = (\<lambda>ev v. (v, NoCmd)),
      vp_View = content,
      style_Render = (\<lambda>f w h s. s),
      JoinHorizontal = concat,
      JoinVertical = (\<lambda>a b. a @ [CHR 0x0A] @ b)\<rparr>"





definition quiet :: world where
  "quiet = \<lparr>sent = [], wscript = [], dialed = [], stderr = []\<rparr>"

text \<open>A server that accepts every connection, and one that refuses port 9001.\<close>

definition accept_all :: "string \<Rightarrow> string + conn" where
  "accept_all a = Inr (Conn a)"

definition refuse9001 :: "string \<Rightarrow> string + conn" where
  "refuse9001 a = (if a = port9001 then Inl ''connection refused'' else Inr (Conn a))"

subsection \<open>Focus\<close>

text \<open>
  The focus flags in order, the output pane's last: the invariant says that they are
  all false but the one at \<open>focusIndex\<close>.
\<close>

definition focus_flags :: "model \<Rightarrow> bool list" where
  "focus_flags m = map focused (topPanes m) @ [outputPaneFocused m]"

definition focus_exclusive :: "model \<Rightarrow> bool" where
  "focus_exclusive m \<longleftrightarrow>
     focusIndex m \<le> length (topPanes m) \<and>
     focus_flags m = (replicate (length (topPanes m) + 1) False)[focusIndex m := True]"

text \<open>What a step that does not move the focus keeps.\<close>

definition same_focus :: "model \<Rightarrow> model \<Rightarrow> bool" where
  "same_focus m m' \<longleftrightarrow>
     focusIndex m' = focusIndex m \<and> focus_flags m' = focus_flags m \<and>
     length (topPanes m') = length (topPanes m)"

text \<open>The state reached from the initial model by tab, tab, down: the cursor on \<open>Cmd 2\<close>.\<close>

definition at_Cmd2 :: model where
  "at_Cmd2 = fst (projr (run plain [KeyMsg ''tab'', KeyMsg ''tab'', KeyMsg ''down''] initialModel quiet))"

subsection \<open>Cursors, items and the list widget's enter key\<close>




text \<open>The focused pane is a command pane whose cursor is on an item: the label there.\<close>

definition command_at :: "model \<Rightarrow> string option" where
  "command_at m =
     (if focusIndex m < length (topPanes m) \<and> \<not> isMenu (topPanes m ! focusIndex m) \<and>
         index_l (items (topPanes m ! focusIndex m))
           < length (items_l (items (topPanes m ! focusIndex m)))
      then Some (title_mi (items_l (items (topPanes m ! focusIndex m))
                            ! index_l (items (topPanes m ! focusIndex m))))
      else None)"

subsection \<open>The mutex and the output pane\<close>

text \<open>
  What each piece of code does with the mutex and with the output pane, in order:
  \<open>listenToServer\<close> (lines 182-184) and \<open>addToOutputPane\<close> (lines 189-191) lock, read
  the pane's text, set it and unlock; the error branch of the enter key (line 270) reads
  and sets it; \<open>View\<close> (lines 313 and 315) reads it.
\<close>

datatype access = Lock | Unlock | ReadOutput | WriteOutput

definition listenToServer_accesses :: "access list" where
  "listenToServer_accesses = [Lock, ReadOutput, WriteOutput, Unlock]"

definition addToOutputPane_accesses :: "access list" where
  "addToOutputPane_accesses = [Lock, ReadOutput, WriteOutput, Unlock]"

definition send_error_accesses :: "access list" where
  "send_error_accesses = [ReadOutput, WriteOutput]"

definition View_accesses :: "access list" where
  "View_accesses = [ReadOutput]"

text \<open>Every read and write of the pane happens with the mutex held.\<close>

fun locked_throughout :: "bool \<Rightarrow> access list \<Rightarrow> bool" where
  "locked_throughout held [] = True"
| "locked_throughout held (Lock # as) = locked_throughout True as"
| "locked_throughout held (Unlock # as) = locked_throughout False as"
| "locked_throughout held (ReadOutput # as) = (held \<and> locked_throughout held as)"
| "locked_throughout held (WriteOutput # as) = (held \<and> locked_throughout held as)"

subsection \<open>The render contract\<close>

text \<open>
  The rows of a pane as the specification words them: one per item, a cursor marker
  on the item at the cursor of a focused pane, a checkbox when the pane is a menu, the
  label.
\<close>

definition contract_rows :: "pane \<Rightarrow> string list" where
  "contract_rows p =
     map (\<lambda>i. let it = items_l (items p) ! i;
                  marker = (if focused p \<and> i = index_l (items p) then ''>'' else '' '');
                  checkbox = (if isMenu p then (if selected it then ''[x]'' else ''[ ]'') else [])
              in marker @ '' '' @ checkbox @ '' '' @ title_mi it)
       [0..<length (items_l (items p))]"

text \<open>
  An assumption on the list widget: handling a message changes neither the title nor
  the delegate of the list.
\<close>

definition keeps_title_delegate :: "bubbles \<Rightarrow> bool" where
  "keeps_title_delegate lib \<longleftrightarrow>
     (\<forall>ev l. Title (fst (list_Update lib ev l)) = Title l \<and>
             delegate (fst (list_Update lib ev l)) = delegate l)"

text \<open>
  A pane whose delegate has the pane's focus flag, and whose list is titled
  \<open>Commands\<close> exactly when the pane is not a menu.
\<close>

definition pane_ok :: "pane \<Rightarrow> bool" where
  "pane_ok p \<longleftrightarrow>
     focused_cd (delegate (items p)) = focused p \<and>
     (Title (items p) = ''Commands'') = (\<not> isMenu p)"

definition panes_ok :: "model \<Rightarrow> bool" where
  "panes_ok m \<longleftrightarrow> list_all pane_ok (topPanes m)"

subsection \<open>Results that do not depend on the world\<close>

text \<open>A result of \<open>Update\<close> with its world replaced.\<close>

definition with_world ::
    "world \<Rightarrow> error + (model \<times> cmd \<times> world) \<Rightarrow> error + (model \<times> cmd \<times> world)" where
  "with_world w r = (case r of Inl e \<Rightarrow> Inl e | Inr (m, k, _) \<Rightarrow> Inr (m, k, w))"

section \<open>Focus exclusivity\<close>

lemma map_focused_items_upd:
  "map focused (ps[i := (ps ! i)\<lparr>items := l\<rparr>]) = map focused ps"
proof (cases "i < length ps")
  case True
  then show ?thesis by (simp add: map_update list_update_same_conv)
next
  case False
  then have "ps[i := (ps ! i)\<lparr>items := l\<rparr>] = ps" by (intro list_update_beyond) simp
  then show ?thesis by simp
qed

lemma flags_set_items:
  "focus_flags (m\<lparr>topPanes := (topPanes m)[i := (topPanes m ! i)\<lparr>items := l\<rparr>]\<rparr>) = focus_flags m"
  by (simp add: focus_flags_def map_focused_items_upd)

lemma flags_outputPane: "focus_flags (m\<lparr>outputPane := v\<rparr>) = focus_flags m"
  by (simp add: focus_flags_def)


lemma forward_same_focus:
  "forward lib ev m w = Inr (m', c, w') \<Longrightarrow> same_focus m m'"
  by (auto simp: forward_def same_focus_def Let_def flags_set_items flags_outputPane
           split: if_splits prod.splits)

lemma toggleSelection_cases:
  assumes "toggleSelection m = Inr m1"
  shows "m1 = m \<or>
         (focusIndex m < length (topPanes m) \<and>
          (\<exists>its. m1 = m\<lparr>topPanes := (topPanes m)[focusIndex m :=
                   (topPanes m ! focusIndex m)\<lparr>items :=
                      SetItems its (items (topPanes m ! focusIndex m))\<rparr>]\<rparr>))"
  using assms by (auto simp: toggleSelection_def Let_def split: if_splits)

lemma toggle_forward:
  assumes "toggle lib ev m w = Inr r"
  shows "\<exists>m1. toggleSelection m = Inr m1 \<and> focusIndex m1 < length (topPanes m1) \<and>
              forward lib ev m1 w = Inr r"
  using assms by (auto simp: toggle_def forward_def split: sum.splits if_splits)

lemma toggleSelection_same_focus:
  assumes "toggleSelection m = Inr m1"
  shows "same_focus m m1"
  using toggleSelection_cases [OF assms]
  by (auto simp: same_focus_def flags_set_items)

lemma toggle_same_focus:
  assumes "toggle lib ev m w = Inr (m', c, w')"
  shows "same_focus m m'"
  using toggle_forward [OF assms]
  by (auto simp: same_focus_def dest!: toggleSelection_same_focus forward_same_focus)

lemma navigate_same_focus:
  "navigate lib ev m w = Inr (m', c, w') \<Longrightarrow> same_focus m m'"
  by (auto simp: navigate_def Let_def  split: if_splits prod.splits dest: forward_same_focus)
     (auto simp: same_focus_def flags_set_items flags_outputPane)


lemma same_focus_trans: "same_focus a b \<Longrightarrow> same_focus b c \<Longrightarrow> same_focus a c"
  by (simp add: same_focus_def)

lemma confirm_cases:
  assumes "confirm lib ev m w = Inr r"
  shows "r = (m, Quit, w) \<or> (\<exists>w'. forward lib ev m w' = Inr r)
         \<or> (\<exists>w' v. forward lib ev (m\<lparr>outputPane := v\<rparr>) w' = Inr r)"
  using assms unfolding confirm_def Let_def
  by (simp split: if_splits option.splits prod.splits) blast+

lemma same_focus_refl: "same_focus m m"
  by (simp add: same_focus_def)

lemma same_focus_outputPane: "same_focus m (m\<lparr>outputPane := v\<rparr>)"
  by (simp add: same_focus_def focus_flags_def)

lemma confirm_same_focus:
  assumes "confirm lib ev m w = Inr (m', c, w')"
  shows "same_focus m m'"
  using confirm_cases [OF assms]
  by (auto intro: same_focus_refl dest!: forward_same_focus
      elim: same_focus_trans [OF same_focus_outputPane])

lemma map_focused_items_map:
  "map focused (map (\<lambda>p. p\<lparr>items := f p\<rparr>) ps) = map focused ps"
  by (induction ps) simp_all

lemma resize_fields:
  "focusIndex (resize wd ht m) = focusIndex m"
  "outputPaneFocused (resize wd ht m) = outputPaneFocused m"
  "length (topPanes (resize wd ht m)) = length (topPanes m)"
  by (simp_all add: resize_def Let_def)

lemma resize_focused: "map focused (topPanes (resize wd ht m)) = map focused (topPanes m)"
  by (simp add: resize_def Let_def map_focused_items_map)

lemma resize_same_focus: "same_focus m (resize wd ht m)"
  by (simp add: same_focus_def focus_flags_def resize_fields resize_focused)


lemma same_focus_exclusive: "same_focus m m' \<Longrightarrow> focus_exclusive m \<Longrightarrow> focus_exclusive m'"
  by (simp add: same_focus_def focus_exclusive_def)

lemma updatePaneDelegates_focused [simp]:
  "map focused (topPanes (updatePaneDelegates m)) = map focused (topPanes m)"
  by (rule nth_equalityI) (simp_all add: updatePaneDelegates_def)

lemma updatePaneDelegates_fields [simp]:
  "outputPaneFocused (updatePaneDelegates m) = outputPaneFocused m"
  "focusIndex (updatePaneDelegates m) = focusIndex m"
  "length (topPanes (updatePaneDelegates m)) = length (topPanes m)"
  "outputPane (updatePaneDelegates m) = outputPane m"
  by (simp_all add: updatePaneDelegates_def)

lemma flags_updatePaneDelegates: "focus_flags (updatePaneDelegates m) = focus_flags m"
  by (simp add: focus_flags_def)

lemma advance_focusIndex:
  "focusIndex (advance m) = (focusIndex m + 1) mod (length (topPanes m) + 1)"
  by (simp add: advance_def Let_def)

lemma advance_length: "length (topPanes (advance m)) = length (topPanes m)"
  by (simp add: advance_def Let_def)

lemma advance_flags:
  assumes "focusIndex m \<le> length (topPanes m)"
  shows "focus_flags (advance m) =
         (focus_flags m)[focusIndex m := False, (focusIndex m + 1) mod (length (topPanes m) + 1) := True]"
proof (cases "focusIndex m < length (topPanes m)")
  case True
  show ?thesis
  proof (cases "Suc (focusIndex m) < length (topPanes m)")
    case True
    with \<open>focusIndex m < length (topPanes m)\<close> show ?thesis
      by (simp add: advance_def Let_def flags_updatePaneDelegates focus_flags_def map_update list_update_append)
  next
    case False
    with \<open>focusIndex m < length (topPanes m)\<close> have "Suc (focusIndex m) = length (topPanes m)" by simp
    with \<open>focusIndex m < length (topPanes m)\<close> show ?thesis
      by (simp add: advance_def Let_def flags_updatePaneDelegates focus_flags_def map_update list_update_append)
  qed
next
  case False
  with assms have "focusIndex m = length (topPanes m)" by simp
  then show ?thesis
    by (cases "topPanes m = []")
       (simp_all add: advance_def Let_def flags_updatePaneDelegates focus_flags_def map_update list_update_append)
qed

lemma replicate_update_same: "(replicate k x)[i := y, i := x] = replicate k x"
  by (cases "i < k") (simp_all add: list_update_same_conv list_update_beyond)

lemma advance_exclusive:
  assumes "focus_exclusive m"
  shows "focus_exclusive (advance m)"
proof -
  define k where "k = length (topPanes m) + 1"
  from assms have le: "focusIndex m \<le> length (topPanes m)"
    and fl: "focus_flags m = (replicate k False)[focusIndex m := True]"
    by (simp_all only: focus_exclusive_def k_def)
  have "focus_flags (advance m) =
        (replicate k False)[focusIndex m := True, focusIndex m := False,
                            (focusIndex m + 1) mod k := True]"
    using advance_flags [OF le] by (simp only: fl k_def)
  then have "focus_flags (advance m) = (replicate k False)[focusIndex (advance m) := True]"
    by (simp only: replicate_update_same advance_focusIndex k_def)
  moreover have "focusIndex (advance m) \<le> length (topPanes (advance m))"
    by (simp add: advance_focusIndex advance_length less_Suc_eq_le [symmetric])
  ultimately show ?thesis
    by (simp only: focus_exclusive_def advance_length k_def)
qed


lemma advance_same: "focus_exclusive m \<Longrightarrow> forward lib ev (advance m) w = Inr (m', c, w') \<Longrightarrow> focus_exclusive m'"
  by (blast intro: same_focus_exclusive advance_exclusive forward_same_focus)

lemma Update_key_other:
  assumes "Update lib (KeyMsg k) m w = Inr (m', c, w')" and "k \<noteq> ''tab''"
  shows "same_focus m m'"
proof -
  consider "toggle lib (KeyMsg k) m w = Inr (m', c, w')"
    | "navigate lib (KeyMsg k) m w = Inr (m', c, w')"
    | "confirm lib (KeyMsg k) m w = Inr (m', c, w')"
    | "m' = m"
    | "forward lib (KeyMsg k) m w = Inr (m', c, w')"
    using assms by (simp add: Update_def split: if_splits)
  then show ?thesis
    by cases (simp_all add: toggle_same_focus navigate_same_focus confirm_same_focus
                forward_same_focus same_focus_refl)
qed

lemma Update_exclusive:
  assumes "Update lib ev m w = Inr (m', c, w')" and "focus_exclusive m"
  shows "focus_exclusive m'"
proof (cases ev)
  case (WindowSizeMsg wd ht)
  with assms(1) have "forward lib ev (resize wd ht m) w = Inr (m', c, w')"
    by (simp add: Update_def)
  then have "same_focus m m'"
    by (blast intro: same_focus_trans resize_same_focus forward_same_focus)
  then show ?thesis using assms(2) by (rule same_focus_exclusive)
next
  case (KeyMsg k)
  show ?thesis
  proof (cases "k = ''tab''")
    case True
    with KeyMsg assms(1) have "forward lib ev (advance m) w = Inr (m', c, w')"
      by (simp add: Update_def)
    with assms(2) show ?thesis by (rule advance_same)
  next
    case False
    with KeyMsg assms(1) have "same_focus m m'"
      by (simp add: Update_key_other)
    then show ?thesis using assms(2) by (rule same_focus_exclusive)
  qed
next
  case (OtherMsg x)
  with assms(1) have "same_focus m m'"
    by (auto simp: Update_def dest: forward_same_focus)
  then show ?thesis using assms(2) by (rule same_focus_exclusive)
qed

lemma run_exclusive:
  "run lib evs m w = Inr (m', w', q) \<Longrightarrow> focus_exclusive m \<Longrightarrow> focus_exclusive m'"
proof (induction evs arbitrary: m w)
  case Nil
  then show ?case by simp
next
  case (Cons ev evs)
  then show ?case
    by (auto split: sum.splits prod.splits if_splits dest: Update_exclusive)
qed

lemma initial_exclusive: "focus_exclusive initialModel"
  by (simp add: focus_exclusive_def initialModel_def focus_flags_def Let_def)

lemma Init_caller_same_focus: "same_focus m (Init_caller m)"
  by (simp add: same_focus_def focus_flags_def Init_caller_def Init_copy_def Let_def
        map_focused_items_map)

lemma started_exclusive:
  "m0 = initialModel \<or> m0 = Init_caller initialModel \<Longrightarrow> focus_exclusive m0"
  using same_focus_exclusive [OF Init_caller_same_focus initial_exclusive] initial_exclusive
  by blast

text \<open>
  C1. Starting from the initial model (as \<open>initialModel\<close> returns it, or as \<open>Init\<close>
  leaves it to the event loop), after any sequence of messages handled by \<open>Update\<close>
  (keys, resizes and any others) that does not end in a panic, exactly one of the focus
  flags of the list panes and of the output pane is true, and it is the one at
  \<open>focusIndex\<close>, where the index past the last list pane is the output pane. This
  holds whatever the list and viewport widgets do with the messages forwarded to them.
\<close>

theorem focus_exclusivity:
  assumes "m0 = initialModel \<or> m0 = Init_caller initialModel"
    and "run lib evs m0 w = Inr (m, w', q)"
  shows "focus_exclusive m"
  using assms(2) started_exclusive [OF assms(1)] by (rule run_exclusive)

theorem focus_exclusivity_witness:
  "case run plain [KeyMsg ''tab'', WindowSizeMsg 80 24, KeyMsg ''down'', KeyMsg ''tab'']
          initialModel quiet of
     Inl e \<Rightarrow> False
   | Inr (m, w', q) \<Rightarrow> focus_exclusive m \<and> focusIndex m = 2"
proof -
  let ?r = "run plain [KeyMsg ''tab'', WindowSizeMsg 80 24, KeyMsg ''down'', KeyMsg ''tab'']
              initialModel quiet"
  have ev: "case ?r of Inl e \<Rightarrow> False | Inr (m, w', q) \<Rightarrow> focusIndex m = 2"
    by code_simp
  show ?thesis
  proof (cases ?r)
    case (Inl e)
    with ev show ?thesis by simp
  next
    case (Inr r)
    obtain m w' q where r: "r = (m, w', q)" by (cases r)
    from Inr r have "?r = Inr (m, w', q)" by (simp only:)
    with disjI1 [OF refl] have "focus_exclusive m" by (rule focus_exclusivity)
    with ev Inr r show ?thesis by (simp only: sum.case prod.case simp_thms)
  qed
qed

section \<open>The space key\<close>

lemma toggle_past_panes:
  "focusIndex m = length (topPanes m) \<Longrightarrow>
   Update lib (KeyMsg '' '') m w = Inl (IndexOutOfRange (length (topPanes m)) (length (topPanes m)))"
  by (simp add: Update_def toggle_def toggleSelection_def)

text \<open>
  C5, where the code departs from the specification. The space key is to be a silent
  no-op whenever the focused pane is not a menu with an item under the cursor. With
  the output pane focused it is not: four tabs move the focus from the first pane to
  the output pane; the space key then skips the guarded toggle and reaches line 245,
  which indexes \<open>topPanes\<close> at \<open>focusIndex = 4\<close>, and the run ends in a panic.
\<close>

theorem space_on_output_pane_panics:
  "run plain [KeyMsg ''tab'', KeyMsg ''tab'', KeyMsg ''tab'', KeyMsg ''tab'', KeyMsg '' '']
     initialModel quiet = Inl (IndexOutOfRange 4 4)"
  by code_simp

section \<open>The enter key\<close>

lemma forward_list:
  assumes "focusIndex m < length (topPanes m)"
  shows "forward lib ev m w =
         Inr (m\<lparr>topPanes := (topPanes m)[focusIndex m :=
                  (topPanes m ! focusIndex m)\<lparr>items := fst (list_Update lib ev (items (topPanes m ! focusIndex m)))\<rparr>]\<rparr>,
              snd (list_Update lib ev (items (topPanes m ! focusIndex m))), w)"
  using assms by (simp add: forward_def Let_def split: prod.splits)




lemma command_at_Some:
  "command_at m = Some l \<longleftrightarrow>
     focusIndex m < length (topPanes m) \<and> \<not> isMenu (topPanes m ! focusIndex m) \<and>
     index_l (items (topPanes m ! focusIndex m)) < length (items_l (items (topPanes m ! focusIndex m))) \<and>
     l = title_mi (items_l (items (topPanes m ! focusIndex m)) ! index_l (items (topPanes m ! focusIndex m)))"
  by (auto simp: command_at_def)

lemma confirm_command:
  assumes "command_at m = Some l" and "l \<noteq> ''Exit''"
  shows "confirm lib ev m w =
     (case conn9001 m of
        None \<Rightarrow> forward lib ev m w
      | Some c \<Rightarrow>
          (case snd (conn_Write c (l @ [CHR 0x0A]) w) of
             None \<Rightarrow> forward lib ev m (fst (conn_Write c (l @ [CHR 0x0A]) w))
           | Some err \<Rightarrow>
               forward lib ev
                 (m\<lparr>outputPane := SetContent (vp_View lib (outputPane m) @ [CHR 0x0A]
                                     @ ''Error sending command: '' @ err) (outputPane m)\<rparr>)
                 (fst (conn_Write c (l @ [CHR 0x0A]) w))))"
  using assms
  by (simp add: command_at_Some confirm_def Let_def split: option.splits prod.splits)


text \<open>
  C6. With the focus on a command pane whose cursor is on the item \<open>Exit\<close>, the enter
  key makes \<open>Update\<close> return \<open>tea.Quit\<close> with the model and the world as they were:
  the event loop ends there and nothing has been written, whether or not there is a
  write connection.
\<close>

theorem exit_quits_without_writing:
  assumes "focusIndex m < length (topPanes m)"
    and "\<not> isMenu (topPanes m ! focusIndex m)"
    and "index_l (items (topPanes m ! focusIndex m)) < length (items_l (items (topPanes m ! focusIndex m)))"
    and "title_mi (items_l (items (topPanes m ! focusIndex m)) ! index_l (items (topPanes m ! focusIndex m))) = ''Exit''"
  shows "Update lib (KeyMsg ''enter'') m w = Inr (m, Quit, w) \<and>
         run lib (KeyMsg ''enter'' # evs) m w = Inr (m, w, True)"
  using assms by (simp add: Update_def confirm_def)

theorem exit_quits_without_writing_witness:
  "case run plain [KeyMsg ''tab'', KeyMsg ''tab'', KeyMsg ''down'', KeyMsg ''down'', KeyMsg ''down'']
          initialModel quiet of
     Inl e \<Rightarrow> False
   | Inr (m, w, q) \<Rightarrow>
       focusIndex m = 2 \<and> index_l (items (topPanes m ! 2)) = 3 \<and>
       Update plain (KeyMsg ''enter'') (m\<lparr>conn9001 := Some (Conn port9001)\<rparr>) w
         = Inr (m\<lparr>conn9001 := Some (Conn port9001)\<rparr>, Quit, w)"
proof -
  let ?r = "run plain [KeyMsg ''tab'', KeyMsg ''tab'', KeyMsg ''down'', KeyMsg ''down'', KeyMsg ''down'']
              initialModel quiet"
  have ev: "case ?r of Inl e \<Rightarrow> False
     | Inr (m, w, q) \<Rightarrow> focusIndex m = 2 \<and> index_l (items (topPanes m ! 2)) = 3 \<and>
         length (topPanes m) = 4 \<and> \<not> isMenu (topPanes m ! 2) \<and>
         length (items_l (items (topPanes m ! 2))) = 4 \<and>
         title_mi (items_l (items (topPanes m ! 2)) ! 3) = ''Exit''"
    by code_simp
  show ?thesis
  proof (cases ?r)
    case (Inl e)
    with ev show ?thesis by simp
  next
    case (Inr r)
    obtain m w q where r: "r = (m, w, q)" by (cases r)
    let ?m = "m\<lparr>conn9001 := Some (Conn port9001)\<rparr>"
    from ev Inr r have h: "focusIndex ?m < length (topPanes ?m)"
      "\<not> isMenu (topPanes ?m ! focusIndex ?m)"
      "index_l (items (topPanes ?m ! focusIndex ?m)) < length (items_l (items (topPanes ?m ! focusIndex ?m)))"
      "title_mi (items_l (items (topPanes ?m ! focusIndex ?m)) ! index_l (items (topPanes ?m ! focusIndex ?m))) = ''Exit''"
      by simp_all
    from exit_quits_without_writing [OF h, of plain w "[]"] ev Inr r
    show ?thesis by (simp del: run.simps)
  qed
qed




section \<open>Connecting\<close>

lemma connectToServer_result:
  "connectToServer dial m0 w0 =
     (m0\<lparr>conn9001 := (case dial port9001 of Inl e \<Rightarrow> None | Inr c \<Rightarrow> Some c),
          conn9002 := (case dial port9002 of Inl e \<Rightarrow> None | Inr c \<Rightarrow> Some c)\<rparr>,
      w0\<lparr>dialed := dialed w0 @ [port9001, port9002],
          stderr := stderr w0 @
            (case dial port9001 of
               Inl e \<Rightarrow> [''Error connecting to port 9001: '' @ e @ [CHR 0x0A]]
             | Inr c \<Rightarrow> []) @
            (case dial port9002 of
               Inl e \<Rightarrow> [''Error connecting to port 9002: '' @ e @ [CHR 0x0A]]
             | Inr c \<Rightarrow> [])\<rparr>,
      \<not> isl (dial port9002))"
  by (simp add: connectToServer_def Let_def split: sum.splits)

lemma forward_list_world:
  "focusIndex m < length (topPanes m) \<Longrightarrow>
   \<exists>m' k. forward lib ev m w = Inr (m', k, w) \<and> outputPane m' = outputPane m \<and>
          conn9001 m' = conn9001 m"
  by (simp add: forward_list)

text \<open>
  C4, as the code has it. \<open>connectToServer\<close> dials the write address and then the read
  address, whatever the first dial returned, and nothing else. Each connection is set
  to what its dial returned, nil on an error, and each error is printed on standard
  error, the write error first; the listener is started exactly when the read dial
  succeeds; nothing is written. With \<open>conn9001\<close> nil, the enter key on a command returns
  normally with nothing written, the output pane unchanged and \<open>conn9001\<close> still nil: no
  error is shown.
\<close>

theorem connect_dials_both_and_nil_send_is_silent:
  "connectToServer dial m0 w0 =
     (m0\<lparr>conn9001 := (case dial port9001 of Inl e \<Rightarrow> None | Inr c \<Rightarrow> Some c),
          conn9002 := (case dial port9002 of Inl e \<Rightarrow> None | Inr c \<Rightarrow> Some c)\<rparr>,
      w0\<lparr>dialed := dialed w0 @ [port9001, port9002],
          stderr := stderr w0 @
            (case dial port9001 of
               Inl e \<Rightarrow> [''Error connecting to port 9001: '' @ e @ [CHR 0x0A]]
             | Inr c \<Rightarrow> []) @
            (case dial port9002 of
               Inl e \<Rightarrow> [''Error connecting to port 9002: '' @ e @ [CHR 0x0A]]
             | Inr c \<Rightarrow> [])\<rparr>,
      \<not> isl (dial port9002)) \<and>
   (\<forall>l. command_at m = Some l \<and> conn9001 m = None \<longrightarrow>
        (\<exists>m' k. Update lib (KeyMsg ''enter'') m w = Inr (m', k, w) \<and>
                outputPane m' = outputPane m \<and> conn9001 m' = None))"
proof (intro conjI allI impI)
  show "connectToServer dial m0 w0 =
     (m0\<lparr>conn9001 := (case dial port9001 of Inl e \<Rightarrow> None | Inr c \<Rightarrow> Some c),
          conn9002 := (case dial port9002 of Inl e \<Rightarrow> None | Inr c \<Rightarrow> Some c)\<rparr>,
      w0\<lparr>dialed := dialed w0 @ [port9001, port9002],
          stderr := stderr w0 @
            (case dial port9001 of
               Inl e \<Rightarrow> [''Error connecting to port 9001: '' @ e @ [CHR 0x0A]]
             | Inr c \<Rightarrow> []) @
            (case dial port9002 of
               Inl e \<Rightarrow> [''Error connecting to port 9002: '' @ e @ [CHR 0x0A]]
             | Inr c \<Rightarrow> [])\<rparr>,
      \<not> isl (dial port9002))"
    by (rule connectToServer_result)
next
  fix l assume a: "command_at m = Some l \<and> conn9001 m = None"
  then have fi: "focusIndex m < length (topPanes m)" by (simp add: command_at_Some)
  have U: "Update lib (KeyMsg ''enter'') m w = confirm lib (KeyMsg ''enter'') m w"
    by (simp add: Update_def)
  show "\<exists>m' k. Update lib (KeyMsg ''enter'') m w = Inr (m', k, w) \<and>
                outputPane m' = outputPane m \<and> conn9001 m' = None"
  proof (cases "l = ''Exit''")
    case True
    with a show ?thesis by (simp add: U confirm_def command_at_Some)
  next
    case False
    with a forward_list_world [OF fi, of lib "KeyMsg ''enter''" w] show ?thesis
      by (simp add: U confirm_command)
  qed
qed

theorem connect_dials_both_and_nil_send_is_silent_witness:
  "connectToServer refuse9001 (Init_copy initialModel) quiet =
     ((Init_copy initialModel)\<lparr>conn9001 := None, conn9002 := Some (Conn port9002)\<rparr>,
      quiet\<lparr>dialed := [port9001, port9002],
            stderr := [''Error connecting to port 9001: connection refused'' @ [CHR 0x0A]]\<rparr>,
      True) \<and>
   command_at at_Cmd2 = Some ''Cmd 2'' \<and> conn9001 at_Cmd2 = None \<and>
   (\<exists>m' k. Update plain (KeyMsg ''enter'') at_Cmd2 quiet = Inr (m', k, quiet) \<and>
           outputPane m' = outputPane at_Cmd2 \<and> conn9001 m' = None)"
proof -
  have c: "command_at at_Cmd2 = Some ''Cmd 2''" and n: "conn9001 at_Cmd2 = None"
    by code_simp+
  from connect_dials_both_and_nil_send_is_silent
         [of refuse9001 "Init_copy initialModel" quiet at_Cmd2 plain quiet] c n
  show ?thesis
    by (simp add: refuse9001_def port9001_def port9002_def quiet_def)
qed

text \<open>
  C4 as the specification words it (no read attempt after a failed write attempt, and
  an error shown by every later send) fails where the write dial is refused: the read
  address is dialled all the same, the read connection is made and the listener
  started; and in the state left by that, with the cursor on \<open>Cmd 2\<close>, the enter key
  changes neither the output pane's text nor anything on the wire.
\<close>

theorem write_dial_failure_counterexample:
  "dialed (fst (snd (connectToServer refuse9001 at_Cmd2 quiet))) = [port9001, port9002] \<and>
   conn9001 (fst (connectToServer refuse9001 at_Cmd2 quiet)) = None \<and>
   conn9002 (fst (connectToServer refuse9001 at_Cmd2 quiet)) = Some (Conn port9002) \<and>
   snd (snd (connectToServer refuse9001 at_Cmd2 quiet)) \<and>
   stderr (fst (snd (connectToServer refuse9001 at_Cmd2 quiet)))
     = [''Error connecting to port 9001: connection refused'' @ [CHR 0x0A]] \<and>
   command_at (fst (connectToServer refuse9001 at_Cmd2 quiet)) = Some ''Cmd 2'' \<and>
   \<not> isl (Update plain (KeyMsg ''enter'') (fst (connectToServer refuse9001 at_Cmd2 quiet))
            (fst (snd (connectToServer refuse9001 at_Cmd2 quiet)))) \<and>
   content (outputPane (fst (projr
     (Update plain (KeyMsg ''enter'') (fst (connectToServer refuse9001 at_Cmd2 quiet))
        (fst (snd (connectToServer refuse9001 at_Cmd2 quiet)))))))
     = ''Welcome to the TUI!'' \<and>
   sent (snd (snd (projr
     (Update plain (KeyMsg ''enter'') (fst (connectToServer refuse9001 at_Cmd2 quiet))
        (fst (snd (connectToServer refuse9001 at_Cmd2 quiet))))))) = []"
  by code_simp

section \<open>Appending to the output pane\<close>






section \<open>The copy made by Init\<close>

text \<open>
  \<open>Update\<close> itself does write the command when the model it is given has a write
  connection and the write succeeds.
\<close>

lemma dispatch_writes_label:
  assumes "command_at m = Some l" and "l \<noteq> ''Exit''"
    and "conn9001 m = Some c" and "wscript w = []"
  shows "\<exists>m' k. Update lib (KeyMsg ''enter'') m w
                  = Inr (m', k, w\<lparr>sent := sent w @ [(c, l @ [CHR 0x0A])]\<rparr>)"
proof -
  from assms(1) have fi: "focusIndex m < length (topPanes m)"
    by (simp add: command_at_Some)
  from assms(4) have "conn_Write c (l @ [CHR 0x0A]) w
      = (w\<lparr>sent := sent w @ [(c, l @ [CHR 0x0A])]\<rparr>, None)"
    by (simp add: conn_Write_def)
  then show ?thesis
    by (simp add: Update_def confirm_command [OF assms(1,2)] assms(3) forward_list [OF fi])
qed

text \<open>
  C2, where the code departs from the specification. With the command pane focused
  and the cursor on \<open>Cmd 2\<close>, the enter key is to write \<open>Cmd 2\<close> and a newline on the
  write connection and leave the program running. In the running program it writes
  nothing: the server accepts both connections, the focus is moved to the command pane
  and the cursor to \<open>Cmd 2\<close>, and enter is pressed; the connection is held by the copy
  that \<open>Init\<close> made, \<open>conn9001\<close> of the model that \<open>Update\<close> receives is nil, and
  the wire stays empty.
\<close>

theorem dispatch_never_reaches_the_wire:
  "case run_sys plain accept_all
          [Connect, UI (KeyMsg ''tab''), UI (KeyMsg ''tab''), UI (KeyMsg ''down''),
           UI (KeyMsg ''enter'')] (start quiet) of
     Inl e \<Rightarrow> False
   | Inr (s, q) \<Rightarrow>
       \<not> q \<and> focusIndex (loop s) = 2 \<and> \<not> isMenu (topPanes (loop s) ! 2) \<and>
       index_l (items (topPanes (loop s) ! 2)) = 1 \<and>
       title_mi (items_l (items (topPanes (loop s) ! 2)) ! 1) = ''Cmd 2'' \<and>
       dialed (wld s) = [port9001, port9002] \<and>
       conn9001 (bgm s) = Some (Conn port9001) \<and>
       conn9001 (loop s) = None \<and> sent (wld s) = []"
  by code_simp

lemma forward_world: "forward lib ev m w = with_world w (forward lib ev m w2)"
  by (simp add: forward_def with_world_def Let_def split: prod.splits)

lemma toggle_world: "toggle lib ev m w = with_world w (toggle lib ev m w2)"
  by (simp add: toggle_def with_world_def Let_def split: prod.splits sum.splits)

lemma navigate_world: "navigate lib ev m w = with_world w (navigate lib ev m w2)"
  by (simp add: navigate_def forward_def with_world_def Let_def split: prod.splits)

lemma confirm_world:
  "conn9001 m = None \<Longrightarrow> confirm lib ev m w = with_world w (confirm lib ev m w2)"
  by (simp add: confirm_def forward_world [of lib ev m w w2] Let_def)
     (simp add: with_world_def)

lemma Update_world:
  "conn9001 m = None \<Longrightarrow> Update lib ev m w = with_world w (Update lib ev m w2)"
  by (cases ev)
     (simp_all add: Update_def forward_world [of lib _ _ w w2] toggle_world [of lib _ m w w2]
        navigate_world [of lib _ m w w2] confirm_world [of m lib _ w w2],
      simp add: with_world_def)

lemma forward_conn:
  "forward lib ev m w = Inr (m', k, w') \<Longrightarrow>
   conn9001 m' = conn9001 m \<and> conn9002 m' = conn9002 m \<and> mu m' = mu m"
  by (auto simp: forward_def Let_def split: if_splits prod.splits)

lemma toggle_conn:
  assumes "toggle lib ev m w = Inr (m', k, w')"
  shows "conn9001 m' = conn9001 m \<and> conn9002 m' = conn9002 m \<and> mu m' = mu m"
  using toggle_forward [OF assms]
  by (auto dest!: toggleSelection_cases forward_conn)

lemma navigate_conn:
  "navigate lib ev m w = Inr (m', k, w') \<Longrightarrow>
   conn9001 m' = conn9001 m \<and> conn9002 m' = conn9002 m \<and> mu m' = mu m"
  by (auto simp: navigate_def Let_def split: if_splits prod.splits dest: forward_conn)

lemma confirm_conn:
  assumes "confirm lib ev m w = Inr (m', k, w')"
  shows "conn9001 m' = conn9001 m \<and> conn9002 m' = conn9002 m \<and> mu m' = mu m"
  using confirm_cases [OF assms] by (auto dest: forward_conn)

lemma advance_conn:
  "conn9001 (advance m) = conn9001 m \<and> conn9002 (advance m) = conn9002 m \<and>
   mu (advance m) = mu m"
  by (simp add: advance_def Let_def updatePaneDelegates_def)

lemma resize_conn:
  "conn9001 (resize a b m) = conn9001 m \<and> conn9002 (resize a b m) = conn9002 m \<and>
   mu (resize a b m) = mu m"
  by (simp add: resize_def Let_def)

lemma Update_conn:
  assumes "Update lib ev m w = Inr (m', k, w')"
  shows "conn9001 m' = conn9001 m \<and> conn9002 m' = conn9002 m \<and> mu m' = mu m"
proof (cases ev)
  case (WindowSizeMsg a b)
  with assms show ?thesis by (auto simp: Update_def resize_conn dest!: forward_conn)
next
  case (KeyMsg key)
  with assms consider "forward lib ev (advance m) w = Inr (m', k, w')"
    | "toggle lib ev m w = Inr (m', k, w')"
    | "navigate lib ev m w = Inr (m', k, w')"
    | "confirm lib ev m w = Inr (m', k, w')"
    | "m' = m"
    | "forward lib ev m w = Inr (m', k, w')"
    by (simp add: Update_def split: if_splits)
  then show ?thesis
    by cases (auto simp: advance_conn dest!: forward_conn toggle_conn navigate_conn confirm_conn)
next
  case (OtherMsg x)
  with assms show ?thesis by (auto simp: Update_def dest!: forward_conn)
qed

lemma Update_nil:
  assumes "Update lib ev m w = Inr (m', k, w')" and "conn9001 m = None"
  shows "w' = w \<and> Update lib ev m w0 = Inr (m', k, w0)"
proof -
  from Update_world [OF assms(2), of lib ev w w] assms(1) have "w' = w"
    by (simp add: with_world_def)
  moreover from Update_world [OF assms(2), of lib ev w0 w] assms(1)
  have "Update lib ev m w0 = Inr (m', k, w0)"
    by (simp add: with_world_def)
  ultimately show ?thesis by simp
qed

lemma connectToServer_sent: "sent (fst (snd (connectToServer dial m w))) = sent w"
  by (simp add: connectToServer_def Let_def split: sum.splits prod.splits)

lemma sys_step_background:
  assumes "sys_step lib dial e s = Inr (s', q)" and "\<forall>ev. e \<noteq> UI ev"
  shows "loop s' = loop s \<and> sent (wld s') = sent (wld s) \<and> \<not> q"
proof (cases e)
  case (UI ev)
  with assms(2) show ?thesis by simp
next
  case Connect
  with assms(1) connectToServer_sent [of dial "bgm s" "wld s"] show ?thesis
    by (auto simp: sys_step_def split: if_splits prod.splits)
next
  case (Recv x)
  with assms(1) show ?thesis by (auto simp: sys_step_def split: if_splits)
next
  case (RecvErr x)
  with assms(1) show ?thesis by (auto simp: sys_step_def split: if_splits)
qed

lemma sys_step_UI:
  assumes "sys_step lib dial (UI ev) s = Inr (s', q)" and "conn9001 (loop s) = None"
  shows "\<exists>k. Update lib ev (loop s) w0 = Inr (loop s', k, w0) \<and> q = (k = Quit) \<and>
            wld s' = wld s \<and> conn9001 (loop s') = None \<and> conn9002 (loop s') = conn9002 (loop s)"
proof -
  from assms(1) obtain m' k w' where u: "Update lib ev (loop s) (wld s) = Inr (m', k, w')"
    and s': "s' = s\<lparr>loop := m', wld := w'\<rparr>" and q: "q = (k = Quit)"
    by (auto simp: sys_step_def split: sum.splits prod.splits)
  from Update_nil [OF u assms(2), of w0] Update_conn [OF u] assms(2) s' q show ?thesis
    by simp
qed

lemma run_sys_loop:
  assumes "run_sys lib dial es s = Inr (s', q)"
    and "conn9001 (loop s) = None" and "conn9002 (loop s) = None"
  shows "conn9001 (loop s') = None \<and> conn9002 (loop s') = None \<and>
         sent (wld s') = sent (wld s) \<and>
         run lib (ui_msgs es) (loop s) w0 = Inr (loop s', w0, q)"
  using assms
proof (induction es arbitrary: s)
  case Nil
  then show ?case by simp
next
  case (Cons e es)
  from Cons.prems(1) obtain s1 q1 where st: "sys_step lib dial e s = Inr (s1, q1)"
    and rest: "if q1 then s' = s1 \<and> q else run_sys lib dial es s1 = Inr (s', q)"
    by (auto split: sum.splits prod.splits if_splits)
  show ?case
  proof (cases e)
    case (UI ev)
    from sys_step_UI [OF st [unfolded UI] Cons.prems(2), of w0] Cons.prems(3)
    obtain k where u: "Update lib ev (loop s) w0 = Inr (loop s1, k, w0)"
      and q1: "q1 = (k = Quit)" and w: "wld s1 = wld s"
      and c: "conn9001 (loop s1) = None" "conn9002 (loop s1) = None"
      by auto
    show ?thesis
    proof (cases q1)
      case True
      with rest u q1 w c UI show ?thesis by simp
    next
      case False
      with rest have "run_sys lib dial es s1 = Inr (s', q)" by simp
      from Cons.IH [OF this c] u q1 False w UI show ?thesis by simp
    qed
  next
    case Connect
    with sys_step_background [OF st] have b: "loop s1 = loop s" "sent (wld s1) = sent (wld s)" "\<not> q1"
      by simp_all
    with rest have "run_sys lib dial es s1 = Inr (s', q)" by simp
    from Cons.IH [OF this] Cons.prems(2,3) b Connect show ?thesis by simp
  next
    case (Recv x)
    with sys_step_background [OF st] have b: "loop s1 = loop s" "sent (wld s1) = sent (wld s)" "\<not> q1"
      by simp_all
    with rest have "run_sys lib dial es s1 = Inr (s', q)" by simp
    from Cons.IH [OF this] Cons.prems(2,3) b Recv show ?thesis by simp
  next
    case (RecvErr x)
    with sys_step_background [OF st] have b: "loop s1 = loop s" "sent (wld s1) = sent (wld s)" "\<not> q1"
      by simp_all
    with rest have "run_sys lib dial es s1 = Inr (s', q)" by simp
    from Cons.IH [OF this] Cons.prems(2,3) b RecvErr show ?thesis by simp
  qed
qed

text \<open>
  C10. \<open>Init\<close> starts \<open>connectToServer\<close> on its own copy of the model. So in every
  state that the running program reaches without a panic, whatever the server and the
  widgets do: \<open>conn9001\<close> and \<open>conn9002\<close> of the model held by the event loop are nil;
  nothing has been written to the network; and that model is the one obtained by
  feeding \<open>Update\<close> the user-interface messages alone, as if no connection had been
  made and no line received, so that what \<open>View\<close> renders of it shows no received line.
\<close>

theorem loop_model_never_connected:
  assumes "run_sys lib dial es (start w) = Inr (s, q)"
  shows "conn9001 (loop s) = None \<and> conn9002 (loop s) = None \<and>
         sent (wld s) = sent w \<and>
         run lib (ui_msgs es) (Init_caller initialModel) w = Inr (loop s, w, q)"
proof -
  have "conn9001 (loop (start w)) = None" "conn9002 (loop (start w)) = None"
    by (simp_all add: start_def Init_caller_def initialModel_def Let_def)
  from run_sys_loop [OF assms this, of w] show ?thesis
    by (simp add: start_def)
qed

theorem loop_model_never_connected_witness:
  "case run_sys plain accept_all
          [Connect, Recv ''hello'', UI (KeyMsg ''tab''), UI (KeyMsg ''tab''),
           UI (KeyMsg ''down''), UI (KeyMsg ''enter'')] (start quiet) of
     Inl e \<Rightarrow> False
   | Inr (s, q) \<Rightarrow>
       conn9001 (loop s) = None \<and> conn9002 (loop s) = None \<and> sent (wld s) = [] \<and>
       conn9001 (bgm s) = Some (Conn port9001) \<and>
       content (outputPane (bgm s)) = ''Welcome to the TUI!hello'' @ [CHR 0x0A] \<and>
       content (outputPane (loop s)) = ''Welcome to the TUI!'' \<and>
       run plain [KeyMsg ''tab'', KeyMsg ''tab'', KeyMsg ''down'', KeyMsg ''enter'']
         (Init_caller initialModel) quiet = Inr (loop s, quiet, q)"
proof -
  let ?es = "[Connect, Recv ''hello'', UI (KeyMsg ''tab''), UI (KeyMsg ''tab''),
              UI (KeyMsg ''down''), UI (KeyMsg ''enter'')]"
  let ?r = "run_sys plain accept_all ?es (start quiet)"
  have ev: "case ?r of Inl e \<Rightarrow> False
     | Inr (s, q) \<Rightarrow>
         conn9001 (bgm s) = Some (Conn port9001) \<and>
         content (outputPane (bgm s)) = ''Welcome to the TUI!hello'' @ [CHR 0x0A] \<and>
         content (outputPane (loop s)) = ''Welcome to the TUI!''"
    by code_simp
  have ui: "ui_msgs ?es = [KeyMsg ''tab'', KeyMsg ''tab'', KeyMsg ''down'', KeyMsg ''enter'']"
    by simp
  show ?thesis
  proof (cases ?r)
    case (Inl e)
    with ev show ?thesis by simp
  next
    case (Inr r)
    obtain s q where r: "r = (s, q)" by (cases r)
    from Inr r have "?r = Inr (s, q)" by (simp only:)
    from loop_model_never_connected [OF this]
    have "conn9001 (loop s) = None \<and> conn9002 (loop s) = None \<and> sent (wld s) = [] \<and>
          run plain [KeyMsg ''tab'', KeyMsg ''tab'', KeyMsg ''down'', KeyMsg ''enter'']
            (Init_caller initialModel) quiet = Inr (loop s, quiet, q)"
      unfolding ui by (simp add: quiet_def del: run.simps)
    with ev Inr r show ?thesis by (simp del: run.simps)
  qed
qed

section \<open>The mutex\<close>

text \<open>
  In the model as in the code, the reader releases the mutex it took, and \<open>Update\<close>
  never touches the mutex, whatever it does to the output pane.
\<close>

lemma listen_message_unlocked: "mu (listen_message lib message m) = False"
  by (simp add: listen_message_def Let_def)

lemma Update_leaves_mutex: "Update lib ev m w = Inr (m', k, w') \<Longrightarrow> mu m' = mu m"
  by (simp add: Update_conn)

text \<open>
  C9, where the code departs from the specification. Every access to the output pane
  is to happen with the mutex held. The reader and \<open>addToOutputPane\<close> do hold it; the
  error branch of the enter key and \<open>View\<close> touch the pane without taking it.
\<close>

theorem mutex_not_held_by_send_error_and_View:
  "locked_throughout False listenToServer_accesses \<and>
   locked_throughout False addToOutputPane_accesses \<and>
   \<not> locked_throughout False send_error_accesses \<and>
   \<not> locked_throughout False View_accesses"
  by (simp add: listenToServer_accesses_def addToOutputPane_accesses_def
        send_error_accesses_def View_accesses_def)

section \<open>The rows of a pane\<close>

lemma pane_ok_items:
  "pane_ok p \<Longrightarrow> Title l = Title (items p) \<Longrightarrow> delegate l = delegate (items p) \<Longrightarrow>
   pane_ok (p\<lparr>items := l\<rparr>)"
  by (simp add: pane_ok_def)

lemma list_all_update: "list_all P xs \<Longrightarrow> P y \<Longrightarrow> list_all P (xs[i := y])"
  by (induction xs arbitrary: i) (auto split: nat.splits)

lemma panes_ok_set_items:
  assumes "panes_ok m" and "i < length (topPanes m)"
    and "Title l = Title (items (topPanes m ! i))"
    and "delegate l = delegate (items (topPanes m ! i))"
  shows "panes_ok (m\<lparr>topPanes := (topPanes m)[i := (topPanes m ! i)\<lparr>items := l\<rparr>]\<rparr>)"
proof -
  from assms(1,2) have "pane_ok (topPanes m ! i)"
    by (simp add: panes_ok_def list_all_length)
  from pane_ok_items [OF this assms(3,4)] assms(1) show ?thesis
    by (simp add: panes_ok_def list_all_update)
qed

lemma panes_ok_outputPane [simp]: "panes_ok (m\<lparr>outputPane := v\<rparr>) = panes_ok m"
  by (simp add: panes_ok_def)

lemma forward_panes_ok:
  assumes "forward lib ev m w = Inr (m', k, w')" and "panes_ok m" and "keeps_title_delegate lib"
  shows "panes_ok m'"
proof (cases "focusIndex m < length (topPanes m)")
  case True
  let ?l = "fst (list_Update lib ev (items (topPanes m ! focusIndex m)))"
  from assms(3) have "Title ?l = Title (items (topPanes m ! focusIndex m))"
    "delegate ?l = delegate (items (topPanes m ! focusIndex m))"
    by (simp_all add: keeps_title_delegate_def)
  from panes_ok_set_items [OF assms(2) True this] assms(1) show ?thesis
    by (simp add: forward_list [OF True])
next
  case False
  with assms(1,2) show ?thesis
    by (auto simp: forward_def split: prod.splits)
qed

lemma navigate_panes_ok:
  assumes "navigate lib ev m w = Inr (m', k, w')" and "panes_ok m" and "keeps_title_delegate lib"
  shows "panes_ok m'"
proof (cases "focusIndex m < length (topPanes m)")
  case True
  then have "navigate lib ev m w = forward lib ev m w"
    by (simp add: navigate_def forward_def)
  with assms show ?thesis by (simp add: forward_panes_ok)
next
  case False
  with assms(1,2) show ?thesis
    by (auto simp: navigate_def forward_def split: prod.splits if_splits)
qed

lemma confirm_panes_ok:
  assumes "confirm lib ev m w = Inr (m', k, w')" and "panes_ok m" and "keeps_title_delegate lib"
  shows "panes_ok m'"
  using confirm_cases [OF assms(1)] assms(2,3)
  by (auto dest: forward_panes_ok)

lemma toggleSelection_panes_ok:
  assumes "toggleSelection m = Inr m1" and "panes_ok m"
  shows "panes_ok m1"
  using toggleSelection_cases [OF assms(1)]
proof
  assume "m1 = m" with assms(2) show ?thesis by simp
next
  let ?p = "topPanes m ! focusIndex m"
  assume "focusIndex m < length (topPanes m) \<and>
     (\<exists>its. m1 = m\<lparr>topPanes := (topPanes m)[focusIndex m :=
                          ?p\<lparr>items := SetItems its (items ?p)\<rparr>]\<rparr>)"
  then obtain its where fi: "focusIndex m < length (topPanes m)"
    and m1: "m1 = m\<lparr>topPanes := (topPanes m)[focusIndex m :=
                          ?p\<lparr>items := SetItems its (items ?p)\<rparr>]\<rparr>" by blast
  from panes_ok_set_items [OF assms(2) fi, of "SetItems its (items ?p)"] m1 show ?thesis
    by (simp add: SetItems_def)
qed

lemma toggle_panes_ok:
  assumes "toggle lib ev m w = Inr (m', k, w')" and "panes_ok m" and "keeps_title_delegate lib"
  shows "panes_ok m'"
proof -
  from toggle_forward [OF assms(1)] obtain m1 where t: "toggleSelection m = Inr m1"
    and fw: "forward lib ev m1 w = Inr (m', k, w')" by blast
  from fw toggleSelection_panes_ok [OF t assms(2)] assms(3) show ?thesis
    by (rule forward_panes_ok)
qed

lemma resize_panes_ok: "panes_ok m \<Longrightarrow> panes_ok (resize a b m)"
  by (simp add: panes_ok_def resize_def Let_def list_all_iff pane_ok_def SetHeight_def)

lemma advance_nth:
  assumes "i < length (topPanes m)"
  shows "isMenu (topPanes (advance m) ! i) = isMenu (topPanes m ! i) \<and>
         Title (items (topPanes (advance m) ! i)) = Title (items (topPanes m ! i)) \<and>
         focused_cd (delegate (items (topPanes (advance m) ! i))) = (i = focusIndex (advance m))"
  using assms
  by (simp add: advance_def Let_def updatePaneDelegates_def SetDelegate_def nth_list_update)

lemma one_hot_nth: "i < k \<Longrightarrow> (replicate k False)[j := True] ! i = (i = j)"
  by (cases "j < k") (auto simp: nth_list_update list_update_beyond)

lemma advance_panes_ok:
  assumes "panes_ok m" and "focus_exclusive m"
  shows "panes_ok (advance m)"
proof -
  have ex: "focus_exclusive (advance m)" using assms(2) by (rule advance_exclusive)
  have len: "length (topPanes (advance m)) = length (topPanes m)" by (rule advance_length)
  {
    fix i assume i: "i < length (topPanes m)"
    from ex have "focus_flags (advance m) ! i
        = (replicate (length (topPanes (advance m)) + 1) False)[focusIndex (advance m) := True] ! i"
      by (simp only: focus_exclusive_def)
    moreover from i len have "focus_flags (advance m) ! i = focused (topPanes (advance m) ! i)"
      by (simp add: focus_flags_def nth_append)
    moreover from i len have "(replicate (length (topPanes (advance m)) + 1) False)[focusIndex (advance m) := True] ! i
        = (i = focusIndex (advance m))"
      by (intro one_hot_nth) simp
    ultimately have f: "focused (topPanes (advance m) ! i) = (i = focusIndex (advance m))"
      by simp
    from assms(1) i have "pane_ok (topPanes m ! i)"
      by (simp add: panes_ok_def list_all_length)
    with advance_nth [OF i] f have "pane_ok (topPanes (advance m) ! i)"
      by (simp add: pane_ok_def)
  }
  with len show ?thesis by (simp add: panes_ok_def list_all_length)
qed

lemma Update_panes_ok:
  assumes "Update lib ev m w = Inr (m', k, w')" and "panes_ok m" and "focus_exclusive m"
    and "keeps_title_delegate lib"
  shows "panes_ok m'"
proof (cases ev)
  case (WindowSizeMsg a b)
  with assms(1) have "forward lib ev (resize a b m) w = Inr (m', k, w')"
    by (simp add: Update_def)
  then show ?thesis using resize_panes_ok [OF assms(2)] assms(4) by (rule forward_panes_ok)
next
  case (KeyMsg key)
  with assms(1) consider "forward lib ev (advance m) w = Inr (m', k, w')"
    | "toggle lib ev m w = Inr (m', k, w')"
    | "navigate lib ev m w = Inr (m', k, w')"
    | "confirm lib ev m w = Inr (m', k, w')"
    | "m' = m"
    | "forward lib ev m w = Inr (m', k, w')"
    by (simp add: Update_def split: if_splits)
  then show ?thesis
  proof cases
    case 1
    then show ?thesis using advance_panes_ok [OF assms(2,3)] assms(4) by (rule forward_panes_ok)
  next
    case 2
    then show ?thesis using assms(2,4) by (rule toggle_panes_ok)
  next
    case 3
    then show ?thesis using assms(2,4) by (rule navigate_panes_ok)
  next
    case 4
    then show ?thesis using assms(2,4) by (rule confirm_panes_ok)
  next
    case 5
    with assms(2) show ?thesis by simp
  next
    case 6
    then show ?thesis using assms(2,4) by (rule forward_panes_ok)
  qed
next
  case (OtherMsg x)
  with assms(1) have "forward lib ev m w = Inr (m', k, w')"
    by (simp add: Update_def)
  then show ?thesis using assms(2,4) by (rule forward_panes_ok)
qed

lemma run_panes_ok:
  "run lib evs m w = Inr (m', w', q) \<Longrightarrow> panes_ok m \<Longrightarrow> focus_exclusive m \<Longrightarrow>
   keeps_title_delegate lib \<Longrightarrow> panes_ok m'"
proof (induction evs arbitrary: m w)
  case Nil
  then show ?case by simp
next
  case (Cons ev evs)
  from Cons.prems(1) obtain m1 k w1 where u: "Update lib ev m w = Inr (m1, k, w1)"
    and rest: "if k = Quit then m' = m1 else run lib evs m1 w1 = Inr (m', w', q)"
    by (auto split: sum.splits prod.splits if_splits)
  have p: "panes_ok m1" using u Cons.prems(2,3,4) by (rule Update_panes_ok)
  have f: "focus_exclusive m1" using u Cons.prems(3) by (rule Update_exclusive)
  show ?case
  proof (cases "k = Quit")
    case True
    with rest p show ?thesis by simp
  next
    case False
    with rest have "run lib evs m1 w1 = Inr (m', w', q)" by simp
    then show ?thesis using p f Cons.prems(4) by (rule Cons.IH)
  qed
qed

lemma initial_panes_ok: "panes_ok initialModel"
  by (simp add: panes_ok_def initialModel_def pane_ok_def createList_def list_New_def Let_def)

lemma Init_caller_panes_ok: "panes_ok m \<Longrightarrow> panes_ok (Init_caller m)"
  by (simp add: panes_ok_def Init_caller_def Init_copy_def Let_def list_all_iff pane_ok_def
        SetWidth_def)

lemma started_panes_ok:
  "m0 = initialModel \<or> m0 = Init_caller initialModel \<Longrightarrow> panes_ok m0"
  using Init_caller_panes_ok [OF initial_panes_ok] initial_panes_ok by blast

lemma Render_rows_contract:
  "pane_ok p \<Longrightarrow> Render_rows (delegate (items p)) (items p) = contract_rows p"
  by (auto simp: Render_rows_def contract_rows_def pane_ok_def Let_def)

lemma length_Render_rows: "length (Render_rows d l) = length (items_l l)"
  by (simp add: Render_rows_def)

lemma keeps_title_delegate_plain: "keeps_title_delegate plain"
  by (simp add: keeps_title_delegate_def plain_def plain_list_Update_def)

lemma Render_contract:
  "pane_ok p \<Longrightarrow>
   Render (delegate (items p)) (items p) index item
     = concat (map (\<lambda>r. r @ [CHR 0x0A]) (contract_rows p))"
  by (simp add: Render_def Render_rows_contract)

lemma length_contract_rows: "length (contract_rows p) = length (items_l (items p))"
  by (simp add: contract_rows_def)

text \<open>
  C8. In every model reached by \<open>Update\<close> from the initial model (as \<open>initialModel\<close>
  returns it, or as \<open>Init\<close> leaves it to the event loop), for every pane, what
  \<open>customDelegate.Render\<close> writes for the pane's delegate and list, whatever index and
  item it is called with, is the rows of the contract, each ended by a newline: exactly
  one row per item; the cursor marker on a row exactly when the pane is focused and the
  item is at the cursor; a checkbox exactly when the pane is a menu, so none on any row
  of the command pane. The code tests the list's title against \<open>Commands\<close>, which in
  these models is the one pane that is not a menu. The list widget is assumed to keep
  a list's title and delegate when it handles a message.
\<close>

theorem render_contract:
  assumes "m0 = initialModel \<or> m0 = Init_caller initialModel"
    and "run lib evs m0 w = Inr (m, w', q)" and "keeps_title_delegate lib"
    and "p \<in> set (topPanes m)"
  shows "Render (delegate (items p)) (items p) index item
           = concat (map (\<lambda>r. r @ [CHR 0x0A]) (contract_rows p)) \<and>
         length (contract_rows p) = length (items_l (items p))"
proof -
  have "panes_ok m"
    using assms(2) started_panes_ok [OF assms(1)] started_exclusive [OF assms(1)] assms(3)
    by (rule run_panes_ok)
  with assms(4) have "pane_ok p" by (simp add: panes_ok_def list_all_iff)
  then have "Render (delegate (items p)) (items p) index item
               = concat (map (\<lambda>r. r @ [CHR 0x0A]) (contract_rows p))"
    by (rule Render_contract)
  with length_contract_rows [of p] show ?thesis by blast
qed

theorem render_contract_witness:
  "case run plain [KeyMsg '' '', KeyMsg ''tab'', KeyMsg ''tab'', KeyMsg ''down'']
          (Init_caller initialModel) quiet of
     Inl e \<Rightarrow> False
   | Inr (m, w', q) \<Rightarrow>
       keeps_title_delegate plain \<and> length (topPanes m) = 4 \<and>
       Render (delegate (items (topPanes m ! 0))) (items (topPanes m ! 0)) 0
           \<lparr>title_mi = ''Option A'', desc = [], selected = True\<rparr>
         = ''  [x] Option A'' @ [CHR 0x0A] @ ''  [ ] Option B'' @ [CHR 0x0A] @
           ''  [ ] Option C'' @ [CHR 0x0A] \<and>
       Render (delegate (items (topPanes m ! 2))) (items (topPanes m ! 2)) 3
           \<lparr>title_mi = ''Exit'', desc = [], selected = False\<rparr>
         = ''   Cmd 1'' @ [CHR 0x0A] @ ''>  Cmd 2'' @ [CHR 0x0A] @
           ''   Cmd 3'' @ [CHR 0x0A] @ ''   Exit'' @ [CHR 0x0A]"
proof -
  let ?r = "run plain [KeyMsg '' '', KeyMsg ''tab'', KeyMsg ''tab'', KeyMsg ''down'']
              (Init_caller initialModel) quiet"
  have ev: "case ?r of Inl e \<Rightarrow> False
     | Inr (m, w', q) \<Rightarrow>
         length (topPanes m) = 4 \<and>
         contract_rows (topPanes m ! 0)
           = [''  [x] Option A'', ''  [ ] Option B'', ''  [ ] Option C''] \<and>
         contract_rows (topPanes m ! 2)
           = [''   Cmd 1'', ''>  Cmd 2'', ''   Cmd 3'', ''   Exit'']"
    by code_simp
  show ?thesis
  proof (cases ?r)
    case (Inl e)
    with ev show ?thesis by simp
  next
    case (Inr r)
    obtain m w' q where r: "r = (m, w', q)" by (cases r)
    from Inr r have run: "?r = Inr (m, w', q)" by (simp only:)
    from ev Inr r have len: "length (topPanes m) = 4" by simp
    then have "topPanes m ! 0 \<in> set (topPanes m)" "topPanes m ! 2 \<in> set (topPanes m)"
      by simp_all
    from render_contract [OF disjI2 [OF refl] run keeps_title_delegate_plain this(1)]
         render_contract [OF disjI2 [OF refl] run keeps_title_delegate_plain this(2)]
         ev Inr r keeps_title_delegate_plain
    show ?thesis by (simp del: run.simps)
  qed
qed

end
